theory Spec2Isabelle
  imports Complex_Main "HOL-Library.Monad_Syntax"
begin

section \<open>NYC street centerline extractor: data model\<close>

text \<open>
  The embedding follows \<^verbatim>\<open>nyc_street_extractor.py\<close>. Python ints are modelled as
  \<^typ>\<open>int\<close>, Python floats as binary64 values whose arithmetic is a parameter,
  exceptions as values of \<open>py_error\<close>, library calls as parameters that can raise.
\<close>

type_synonym grid_cell = "int \<times> int"
  \<comment> \<open>(column, row) of a spreadsheet cell\<close>

type_synonym worksheet = "grid_cell list"
  \<comment> \<open>the cells handed to \<^verbatim>\<open>worksheet.write\<close> with the street format, in call order;
      column widths, row heights and the merged title carry no street cell and are left out\<close>

section \<open>Exceptions\<close>

datatype exc_class =
  Exception | ValueError | OverflowError | FileNotFoundError | PermissionError | EOFError
| LibraryError
  \<comment> \<open>\<open>LibraryError\<close>: any other exception class raised inside a library call\<close>

datatype py_error = Raised exc_class string
  \<comment> \<open>an exception: its class and its message \<^verbatim>\<open>str(e)\<close>\<close>

fun exc_str :: "py_error \<Rightarrow> string" where
  "exc_str (Raised c msg) = msg"

fun str_nat :: "nat \<Rightarrow> string" where
  \<comment> \<open>\<^verbatim>\<open>str(n)\<close> of a non-negative int\<close>
  "str_nat n = (if n < 10 then [char_of (48 + n)]
                else str_nat (n div 10) @ [char_of (48 + n mod 10)])"

section \<open>Floating-point values\<close>

text \<open>
  A Python float is a binary64 value: a finite number, an infinity or NaN. The arithmetic
  of the machine, rounding included, is not defined here; the four operations the source
  uses are parameters of the model (\<open>float_ops\<close>), so that what is proved holds for the
  operations of the machine, whatever they return.
\<close>

datatype pyfloat = Finite real | PosInf | NegInf | NaN

record float_ops =
  fsub :: "pyfloat \<Rightarrow> pyfloat \<Rightarrow> pyfloat"   \<comment> \<open>\<^verbatim>\<open>a - b\<close>\<close>
  fmul :: "pyfloat \<Rightarrow> pyfloat \<Rightarrow> pyfloat"   \<comment> \<open>\<^verbatim>\<open>a * b\<close>\<close>
  fadd :: "pyfloat \<Rightarrow> pyfloat \<Rightarrow> pyfloat"   \<comment> \<open>\<^verbatim>\<open>a + b\<close>\<close>
  fdiv :: "pyfloat \<Rightarrow> pyfloat \<Rightarrow> pyfloat"   \<comment> \<open>\<^verbatim>\<open>a / b\<close> for a divisor that is not zero\<close>


type_synonym point = "pyfloat \<times> pyfloat"
  \<comment> \<open>shapely \<^verbatim>\<open>Point(x, y)\<close>: x is the longitude, y the latitude\<close>

section \<open>Coordinate projection\<close>

fun py_int :: "pyfloat \<Rightarrow> py_error + int" where
  \<comment> \<open>Python's \<^verbatim>\<open>int(v)\<close> on a float: the fractional part is discarded; NaN and the
      infinities raise\<close>
  "py_int (Finite v) = Inr (if v < 0 then \<lceil>v\<rceil> else \<lfloor>v\<rfloor>)"
| "py_int NaN = Inl (Raised ValueError ''cannot convert float NaN to integer'')"
| "py_int PosInf = Inl (Raised OverflowError ''cannot convert float infinity to integer'')"
| "py_int NegInf = Inl (Raised OverflowError ''cannot convert float infinity to integer'')"

definition unpack_error :: "nat \<Rightarrow> py_error" where
  \<comment> \<open>unpacking a tuple of \<open>n \<noteq> 2\<close> values into \<^verbatim>\<open>lon, lat\<close>; the message is the one of
      CPython up to 3.13 and no property below depends on it\<close>
  "unpack_error n =
     (if n < 2 then Raised ValueError
        (''not enough values to unpack (expected 2, got '' @ str_nat n @ '')'')
      else Raised ValueError ''too many values to unpack (expected 2)'')"

text \<open>
  A coordinate is the tuple shapely yields: two floats, or three for a geometry with a
  z value. \<^verbatim>\<open>for lon, lat in coords\<close> raises on a tuple that is not a pair. The default
  \<^verbatim>\<open>scale=100\<close> is passed by the caller as \<open>Finite 100\<close>.
\<close>

fun convert_coords_to_excel_coords ::
  "float_ops \<Rightarrow> pyfloat list list \<Rightarrow> pyfloat \<Rightarrow> pyfloat \<Rightarrow> pyfloat \<Rightarrow> py_error + grid_cell list"
where
  "convert_coords_to_excel_coords ops [] center_lon center_lat scale = Inr []"
| "convert_coords_to_excel_coords ops ([lon, lat] # coords) center_lon center_lat scale =
     (let x = fmul ops (fsub ops lon center_lon) scale;
          y = fmul ops (fsub ops lat center_lat) scale
      in case py_int (fadd ops x (Finite 50)) of
           Inl e \<Rightarrow> Inl e
         | Inr excel_x \<Rightarrow>
             (case py_int (fsub ops (Finite 50) y) of
                Inl e \<Rightarrow> Inl e
              | Inr excel_y \<Rightarrow>
                  (case convert_coords_to_excel_coords ops coords center_lon center_lat scale of
                     Inl e \<Rightarrow> Inl e
                   | Inr excel_coords \<Rightarrow> Inr ((excel_x, excel_y) # excel_coords))))"
| "convert_coords_to_excel_coords ops (coord # coords) center_lon center_lat scale =
     Inl (unpack_error (length coord))"

section \<open>Line rasterizer\<close>

definition ws_write :: "worksheet \<Rightarrow> int \<Rightarrow> int \<Rightarrow> worksheet" where
  \<comment> \<open>\<^verbatim>\<open>worksheet.write(row, col, '', format)\<close>\<close>
  "ws_write ws row col = ws @ [(col, row)]"

text \<open>
  The \<^verbatim>\<open>while True\<close> loop of \<^verbatim>\<open>draw_line\<close>. The loop has no bound of its own, so it is a
  partial function: \<open>None\<close> stands for a run that never leaves the loop.
\<close>

partial_function (option) draw_loop ::
  "int \<Rightarrow> int \<Rightarrow> int \<Rightarrow> int \<Rightarrow> int \<Rightarrow> int \<Rightarrow> worksheet \<Rightarrow> int \<Rightarrow> int \<Rightarrow> int \<Rightarrow> worksheet option"
where
  "draw_loop end_x end_y dx dy sx sy ws x y err =
     (let ws' = ws_write ws y x in
      if x = end_x \<and> y = end_y then Some ws'
      else
        let e2 = 2 * err;
            (err, x) = (if e2 > - dy then (err - dy, x + sx) else (err, x));
            (err, y) = (if e2 < dx then (err + dx, y + sy) else (err, y))
        in draw_loop end_x end_y dx dy sx sy ws' x y err)"

declare draw_loop.simps [code]

definition draw_line :: "worksheet \<Rightarrow> int \<Rightarrow> int \<Rightarrow> int \<Rightarrow> int \<Rightarrow> worksheet option" where
  "draw_line ws start_x start_y end_x end_y =
     (let dx = \<bar>end_x - start_x\<bar>;
          dy = \<bar>end_y - start_y\<bar>;
          sx = (if start_x < end_x then 1 else - 1);
          sy = (if start_y < end_y then 1 else - 1);
          err = dx - dy
      in draw_loop end_x end_y dx dy sx sy ws start_x start_y err)"

subsection \<open>The line walk as the specification words it\<close>

text \<open>
  \<open>spec_line_walk\<close> follows the specification's description of the algorithm, not the
  source: at each step the current cell is emitted; the walk stops after emitting the end
  cell; otherwise \<open>x\<close> moves by \<open>sx\<close> (and \<open>err\<close> drops by \<open>dy\<close>) when \<open>2*err > -dy\<close>, and
  \<open>y\<close> moves by \<open>sy\<close> (and \<open>err\<close> grows by \<open>dx\<close>) when \<open>2*err < dx\<close>. Both comparisons are
  read on the value \<open>2*err\<close> has at the start of the step.
\<close>

inductive spec_line_walk ::
  "int \<Rightarrow> int \<Rightarrow> int \<Rightarrow> int \<Rightarrow> int \<Rightarrow> int \<Rightarrow> int \<Rightarrow> int \<Rightarrow> int \<Rightarrow> grid_cell list \<Rightarrow> bool"
  for x1 y1 dx dy sx sy
where
  emit_end: "x = x1 \<Longrightarrow> y = y1 \<Longrightarrow> spec_line_walk x1 y1 dx dy sx sy x y err [(x, y)]"
| emit_step: "\<not> (x = x1 \<and> y = y1) \<Longrightarrow>
     spec_line_walk x1 y1 dx dy sx sy
       (if 2 * err > - dy then x + sx else x)
       (if 2 * err < dx then y + sy else y)
       ((if 2 * err > - dy then err - dy else err) + (if 2 * err < dx then dx else 0))
       cells \<Longrightarrow>
     spec_line_walk x1 y1 dx dy sx sy x y err ((x, y) # cells)"

text \<open>The relation is executable: given the end cell, the deltas, the directions and the
  current state, it enumerates the cell sequences (or checks a given one).\<close>

code_pred (modes: i \<Rightarrow> i \<Rightarrow> i \<Rightarrow> i \<Rightarrow> i \<Rightarrow> i \<Rightarrow> i \<Rightarrow> i \<Rightarrow> i \<Rightarrow> o \<Rightarrow> bool as walk_cells,
                  i \<Rightarrow> i \<Rightarrow> i \<Rightarrow> i \<Rightarrow> i \<Rightarrow> i \<Rightarrow> i \<Rightarrow> i \<Rightarrow> i \<Rightarrow> i \<Rightarrow> bool)
  spec_line_walk .

definition spec_segments :: "grid_cell \<Rightarrow> grid_cell \<Rightarrow> grid_cell list \<Rightarrow> bool" where
  "spec_segments start end cells =
     (case (start, end) of ((x0, y0), (x1, y1)) \<Rightarrow>
        spec_line_walk x1 y1 \<bar>x1 - x0\<bar> \<bar>y1 - y0\<bar>
          (if x0 < x1 then 1 else - 1) (if y0 < y1 then 1 else - 1)
          x0 y0 (\<bar>x1 - x0\<bar> - \<bar>y1 - y0\<bar>) cells)"

subsection \<open>Auxiliary notions for the proofs\<close>

text \<open>
  With \<open>a = sx * (x1 - x)\<close> and \<open>b = sy * (y1 - y)\<close> the numbers of column and row steps
  still to be made, the loop keeps \<open>0 \<le> a \<le> dx\<close>, \<open>0 \<le> b \<le> dy\<close> and
  \<open>err = dx - dy + a * dy - b * dx\<close>.
\<close>

definition walk_inv :: "int \<Rightarrow> int \<Rightarrow> int \<Rightarrow> int \<Rightarrow> int \<Rightarrow> int \<Rightarrow> int \<Rightarrow> int \<Rightarrow> int \<Rightarrow> bool" where
  "walk_inv x1 y1 dx dy sx sy x y err =
     (0 \<le> sx * (x1 - x) \<and> sx * (x1 - x) \<le> dx \<and>
      0 \<le> sy * (y1 - y) \<and> sy * (y1 - y) \<le> dy \<and>
      err = dx - dy + sx * (x1 - x) * dy - sy * (y1 - y) * dx)"

definition adjacent8 :: "grid_cell \<Rightarrow> grid_cell \<Rightarrow> bool" where
  "adjacent8 p q = (\<bar>fst q - fst p\<bar> \<le> 1 \<and> \<bar>snd q - snd p\<bar> \<le> 1)"


section \<open>Geometry and the data frame\<close>

datatype geometry =
  is_LineString: LineString "pyfloat list list"
    \<comment> \<open>an instance of shapely's \<^verbatim>\<open>LineString\<close>, with its \<^verbatim>\<open>coords\<close>\<close>
| MultiLineString "pyfloat list list list"
| OtherGeometry

record feature =
  geometry :: geometry
  stname :: "string option"

record geodataframe =
  crs :: "nat option"
  rows :: "feature list"

section \<open>Spreadsheet export\<close>

fun draw_segments :: "worksheet \<Rightarrow> grid_cell list \<Rightarrow> worksheet option" where
  \<comment> \<open>\<^verbatim>\<open>for i in range(len(excel_coords) - 1)\<close>\<close>
  "draw_segments ws ((start_x, start_y) # (end_x, end_y) # rest) =
     do { ws' \<leftarrow> draw_line ws start_x start_y end_x end_y;
          draw_segments ws' ((end_x, end_y) # rest) }"
| "draw_segments ws excel_coords = Some ws"

text \<open>
  The loop over the rows returns the worksheet and, when the conversion of a row's
  coordinates raised, the exception that ended the loop.
\<close>

fun draw_rows ::
  "float_ops \<Rightarrow> worksheet \<Rightarrow> feature list \<Rightarrow> pyfloat \<Rightarrow> pyfloat \<Rightarrow>
   (worksheet \<times> py_error option) option" where
  \<comment> \<open>\<^verbatim>\<open>for idx, row in streets_data.iterrows()\<close>\<close>
  "draw_rows ops ws [] center_lon center_lat = Some (ws, None)"
| "draw_rows ops ws (row # rest) center_lon center_lat =
     (case geometry row of
        LineString coords \<Rightarrow>
          (case convert_coords_to_excel_coords ops coords center_lon center_lat (Finite 100) of
             Inl e \<Rightarrow> Some (ws, Some e)
           | Inr excel_coords \<Rightarrow>
               do { ws' \<leftarrow> draw_segments ws excel_coords;
                    draw_rows ops ws' rest center_lon center_lat })
      | _ \<Rightarrow> draw_rows ops ws rest center_lon center_lat)"

text \<open>
  \<open>workbook_close\<close> stands for \<^verbatim>\<open>workbook.close()\<close>, the call that writes the file. The result
  pairs the worksheet with the value returned (\<open>True\<close>) or the exception re-raised by the
  handler, which wraps whatever was raised inside the \<^verbatim>\<open>try\<close>.
\<close>

definition export_streets_to_excel ::
  "float_ops \<Rightarrow> (string \<Rightarrow> worksheet \<Rightarrow> py_error option) \<Rightarrow> geodataframe \<Rightarrow> point \<Rightarrow> string \<Rightarrow>
   (worksheet \<times> (py_error + bool)) option" where
  "export_streets_to_excel ops workbook_close streets_data center_point output_path =
     (case center_point of (center_lon, center_lat) \<Rightarrow>
        do { (ws, raised) \<leftarrow> draw_rows ops [] (rows streets_data) center_lon center_lat;
             Some (ws,
               case raised of
                 Some e \<Rightarrow> Inl (Raised Exception (''Error exporting to Excel: '' @ exc_str e))
               | None \<Rightarrow>
                   (case workbook_close output_path ws of
                      None \<Rightarrow> Inr True
                    | Some e \<Rightarrow>
                        Inl (Raised Exception (''Error exporting to Excel: '' @ exc_str e)))) })"

section \<open>The process state and the collaborators\<close>

record world =
  stdout :: "string list"      \<comment> \<open>one entry per \<^verbatim>\<open>print\<close> call or \<^verbatim>\<open>input\<close> prompt\<close>
  stdin :: "string list"       \<comment> \<open>the lines still to be read\<close>
  file_reads :: "string list"  \<comment> \<open>the paths handed to \<^verbatim>\<open>gpd.read_file\<close>\<close>
  artifacts :: "string list"   \<comment> \<open>the output files written\<close>

definition py_print :: "string \<Rightarrow> world \<Rightarrow> world" where
  "py_print s w = w\<lparr>stdout := stdout w @ [s]\<rparr>"





section \<open>User input and geocoding\<close>




section \<open>Spatial filter\<close>



section \<open>Companion files of the shapefile\<close>





section \<open>Map and vector outputs\<close>





section \<open>The pipeline\<close>

definition report_error :: "py_error \<Rightarrow> world \<Rightarrow> world" where
  \<comment> \<open>the handler \<^verbatim>\<open>except Exception as e: print(f"\nError: {str(e)}")\<close>\<close>
  "report_error e w = py_print (''\<newline>Error: '' @ exc_str e) w"


section \<open>Properties of binary64 arithmetic used as hypotheses\<close>

text \<open>
  \<open>dyadic53\<close> holds of the binary64 numbers of magnitude below \<open>2^53\<close>: an integer of at
  most 53 bits over a power of two down to \<open>2^-1074\<close>. A rounding function
  \<open>rounding_between\<close> never carries a real across such a number: a value between two of
  them rounds to a finite float between them (so each of them rounds to itself). Every
  rounding mode of IEEE 754 has this property. \<open>ops_round\<close> says that on finite operands
  the operations return the rounded exact result.
\<close>

definition dyadic53 :: "real \<Rightarrow> bool" where
  "dyadic53 x \<longleftrightarrow> (\<exists>(k::int) (n::nat). \<bar>k\<bar> < 2 ^ 53 \<and> n \<le> 1074 \<and> x = of_int k / 2 ^ n)"

definition rounding_between :: "(real \<Rightarrow> pyfloat) \<Rightarrow> bool" where
  "rounding_between rnd \<longleftrightarrow>
     (\<forall>p q x. dyadic53 p \<and> dyadic53 q \<and> p \<le> x \<and> x \<le> q \<longrightarrow>
        (\<exists>r. rnd x = Finite r \<and> p \<le> r \<and> r \<le> q))"

definition ops_round :: "float_ops \<Rightarrow> (real \<Rightarrow> pyfloat) \<Rightarrow> bool" where
  "ops_round ops rnd \<longleftrightarrow>
     (\<forall>a b. fsub ops (Finite a) (Finite b) = rnd (a - b) \<and>
            fmul ops (Finite a) (Finite b) = rnd (a * b) \<and>
            fadd ops (Finite a) (Finite b) = rnd (a + b))"

text \<open>
  \<open>exact_ops\<close> computes without rounding error on finite values. It serves to evaluate
  the model at inputs where every intermediate result is a binary64 number, or where the
  rounding error is too small to change a cell. On an operand that is not finite it
  returns NaN; no evaluation below reaches that case.
\<close>

fun lift2 :: "(real \<Rightarrow> real \<Rightarrow> real) \<Rightarrow> pyfloat \<Rightarrow> pyfloat \<Rightarrow> pyfloat" where
  "lift2 f (Finite a) (Finite b) = Finite (f a b)"
| "lift2 f a b = NaN"

definition exact_ops :: float_ops where
  "exact_ops = \<lparr>fsub = lift2 (-), fmul = lift2 (*), fadd = lift2 (+), fdiv = lift2 (/)\<rparr>"

section \<open>A concrete environment for evaluating the model\<close>






section \<open>Properties of the rasterizer\<close>

lemma draw_loop_end:
  "draw_loop x1 y1 dx dy sx sy ws x1 y1 err = Some (ws @ [(x1, y1)])"
  by (subst draw_loop.simps) (simp add: ws_write_def)

lemma draw_loop_step:
  assumes "\<not> (x = x1 \<and> y = y1)"
  shows "draw_loop x1 y1 dx dy sx sy ws x y err =
         draw_loop x1 y1 dx dy sx sy (ws @ [(x, y)])
           (if 2 * err > - dy then x + sx else x)
           (if 2 * err < dx then y + sy else y)
           ((if 2 * err > - dy then err - dy else err) + (if 2 * err < dx then dx else 0))"
  using assms by (subst draw_loop.simps) (auto simp add: ws_write_def Let_def)

lemma spec_walk_draw_loop:
  "spec_line_walk x1 y1 dx dy sx sy x y err cells \<Longrightarrow>
   draw_loop x1 y1 dx dy sx sy ws x y err = Some (ws @ cells)"
proof (induction arbitrary: ws rule: spec_line_walk.induct)
  case (emit_end x y err)
  then show ?case by (simp add: draw_loop_end)
next
  case (emit_step x y err cells)
  have "draw_loop x1 y1 dx dy sx sy ws x y err =
        draw_loop x1 y1 dx dy sx sy (ws @ [(x, y)])
          (if 2 * err > - dy then x + sx else x)
          (if 2 * err < dx then y + sy else y)
          ((if 2 * err > - dy then err - dy else err) + (if 2 * err < dx then dx else 0))"
    by (rule draw_loop_step[OF emit_step.hyps(1)])
  also have "\<dots> = Some ((ws @ [(x, y)]) @ cells)"
    by (rule emit_step.IH)
  finally show ?case by simp
qed

lemma spec_walk_ends:
  "spec_line_walk x1 y1 dx dy sx sy x y err cells \<Longrightarrow>
   cells \<noteq> [] \<and> hd cells = (x, y) \<and> last cells = (x1, y1)"
  by (induction rule: spec_line_walk.induct) auto

lemma spec_walk_connected:
  assumes "\<bar>sx\<bar> \<le> 1" "\<bar>sy\<bar> \<le> 1"
  shows "spec_line_walk x1 y1 dx dy sx sy x y err cells \<Longrightarrow> successively adjacent8 cells"
proof (induction rule: spec_line_walk.induct)
  case (emit_end x y err)
  then show ?case by simp
next
  case (emit_step x y err cells)
  from spec_walk_ends[OF emit_step.hyps(2)]
  have ne: "cells \<noteq> []"
    and h: "hd cells = (if 2 * err > - dy then x + sx else x, if 2 * err < dx then y + sy else y)"
    by simp_all
  have "adjacent8 (x, y) (hd cells)"
    using assms by (simp add: h adjacent8_def)
  with ne emit_step.IH show ?case
    by (simp add: successively_Cons)
qed

text \<open>Every state that satisfies the invariant starts a finite walk to the end cell.\<close>

lemma walk_exists:
  assumes sx: "sx = 1 \<or> sx = - 1" and sy: "sy = 1 \<or> sy = - 1"
    and dx: "0 \<le> dx" and dy: "0 \<le> dy"
  shows "walk_inv x1 y1 dx dy sx sy x y err \<Longrightarrow>
         \<exists>cells. spec_line_walk x1 y1 dx dy sx sy x y err cells"
proof (induction "nat (sx * (x1 - x) + sy * (y1 - y))" arbitrary: x y err rule: less_induct)
  case less
  define a where "a = sx * (x1 - x)"
  define b where "b = sy * (y1 - y)"
  from less.prems have a: "0 \<le> a" "a \<le> dx" and b: "0 \<le> b" "b \<le> dy"
    and e: "err = dx - dy + a * dy - b * dx"
    by (simp_all add: walk_inv_def a_def b_def)
  have xa: "x = x1 \<longleftrightarrow> a = 0" using sx by (auto simp: a_def)
  have yb: "y = y1 \<longleftrightarrow> b = 0" using sy by (auto simp: b_def)
  show ?case
  proof (cases "x = x1 \<and> y = y1")
    case True
    then show ?thesis by (auto intro: spec_line_walk.emit_end)
  next
    case False
    let ?cx = "2 * err > - dy" and ?cy = "2 * err < dx"
    let ?x' = "if ?cx then x + sx else x"
    let ?y' = "if ?cy then y + sy else y"
    let ?err' = "(if ?cx then err - dy else err) + (if ?cy then dx else 0)"
    have ab: "a \<noteq> 0 \<or> b \<noteq> 0" using False xa yb by simp
    have nox: "\<not> ?cx" if "a = 0"
    proof -
      from that ab b have "1 \<le> b" by simp
      then have "dx * (1 - b) \<le> 0" using dx by (simp add: mult_nonneg_nonpos)
      moreover have "2 * err = 2 * (dx * (1 - b)) - 2 * dy"
        using that by (simp add: e algebra_simps)
      ultimately show ?thesis using dy by simp
    qed
    have noy: "\<not> ?cy" if "b = 0"
    proof -
      from that ab a have "1 \<le> a" by simp
      then have "0 \<le> dy * (a - 1)" using dy by simp
      moreover have "2 * err = 2 * dx + 2 * (dy * (a - 1))"
        using that by (simp add: e algebra_simps)
      ultimately show ?thesis using dx by simp
    qed
    have some: "?cx \<or> ?cy"
    proof (rule ccontr)
      assume "\<not> (?cx \<or> ?cy)"
      then have "dx \<le> - dy" by simp
      with dx dy have "dx = 0" "dy = 0" by simp_all
      with a b ab show False by simp
    qed
    define a' where "a' = (if ?cx then a - 1 else a)"
    define b' where "b' = (if ?cy then b - 1 else b)"
    have a'eq: "sx * (x1 - ?x') = a'"
      using sx by (auto simp: a'_def a_def algebra_simps)
    have b'eq: "sy * (y1 - ?y') = b'"
      using sy by (auto simp: b'_def b_def algebra_simps)
    have "1 \<le> a" if "?cx" using that nox a by (cases "a = 0") simp_all
    then have a'r: "0 \<le> a'" "a' \<le> dx" using a by (auto simp: a'_def)
    have "1 \<le> b" if "?cy" using that noy b by (cases "b = 0") simp_all
    then have b'r: "0 \<le> b'" "b' \<le> dy" using b by (auto simp: b'_def)
    have e': "?err' = dx - dy + a' * dy - b' * dx"
      by (auto simp: a'_def b'_def e algebra_simps)
    have inv': "walk_inv x1 y1 dx dy sx sy ?x' ?y' ?err'"
      unfolding walk_inv_def a'eq b'eq using a'r b'r e' by simp
    have "a' + b' < a + b" using some by (auto simp: a'_def b'_def)
    then have "nat (sx * (x1 - ?x') + sy * (y1 - ?y')) < nat (sx * (x1 - x) + sy * (y1 - y))"
      unfolding a'eq b'eq using a'r b'r by (simp add: a_def b_def)
    from less.hyps[OF this inv']
    obtain cells where "spec_line_walk x1 y1 dx dy sx sy ?x' ?y' ?err' cells" by blast
    from spec_line_walk.emit_step[OF False this] show ?thesis by blast
  qed
qed

lemma walk_inv_start:
  "walk_inv x1 y1 \<bar>x1 - x0\<bar> \<bar>y1 - y0\<bar> (if x0 < x1 then 1 else - 1) (if y0 < y1 then 1 else - 1)
     x0 y0 (\<bar>x1 - x0\<bar> - \<bar>y1 - y0\<bar>)"
  by (auto simp: walk_inv_def algebra_simps abs_if)

lemma spec_segments_exists: "\<exists>cells. spec_segments (x0, y0) (x1, y1) cells"
  unfolding spec_segments_def prod.case
  by (rule walk_exists[OF _ _ _ _ walk_inv_start]) auto

lemma spec_segments_draw_line:
  "spec_segments (x0, y0) (x1, y1) cells \<Longrightarrow> draw_line ws x0 y0 x1 y1 = Some (ws @ cells)"
  unfolding spec_segments_def prod.case draw_line_def Let_def
  by (rule spec_walk_draw_loop)

lemma spec_segments_ends:
  "spec_segments (x0, y0) (x1, y1) cells \<Longrightarrow>
   cells \<noteq> [] \<and> hd cells = (x0, y0) \<and> last cells = (x1, y1)"
  unfolding spec_segments_def prod.case by (rule spec_walk_ends)

lemma spec_segments_connected:
  "spec_segments (x0, y0) (x1, y1) cells \<Longrightarrow> successively adjacent8 cells"
  unfolding spec_segments_def prod.case
  by (rule spec_walk_connected[rotated 2]) auto

lemma successively_nth:
  "successively P xs \<Longrightarrow> Suc i < length xs \<Longrightarrow> P (xs ! i) (xs ! Suc i)"
proof (induction P xs arbitrary: i rule: successively.induct)
  case (3 P x y xs)
  then show ?case by (cases i) auto
qed simp_all

lemma draw_line_example: "draw_line [] 0 0 2 1 = Some [(0, 0), (1, 0), (2, 1)]"
  by code_simp

text \<open>
  C2. For every pair of grid cells the rasterizer emits exactly the cell sequence of the
  line walk the specification states: that walk produces one and only one sequence from
  start to end, and \<open>draw_line\<close> appends precisely this sequence to the worksheet.
\<close>

theorem draw_line_refines_spec_walk:
  "\<exists>cells. spec_segments (x0, y0) (x1, y1) cells \<and>
           (\<forall>cs. spec_segments (x0, y0) (x1, y1) cs \<longrightarrow> cs = cells) \<and>
           draw_line ws x0 y0 x1 y1 = Some (ws @ cells)"
proof -
  obtain cells where c: "spec_segments (x0, y0) (x1, y1) cells"
    using spec_segments_exists by blast
  have d: "draw_line ws x0 y0 x1 y1 = Some (ws @ cells)"
    by (rule spec_segments_draw_line[OF c])
  have "cs = cells" if "spec_segments (x0, y0) (x1, y1) cs" for cs
    using spec_segments_draw_line[OF that, of ws] d by simp
  with c d show ?thesis by blast
qed

theorem draw_line_refines_spec_walk_witness:
  "spec_segments (0, 0) (2, 1) [(0, 0), (1, 0), (2, 1)] \<and>
   draw_line [] 0 0 2 1 = Some [(0, 0), (1, 0), (2, 1)]"
proof -
  from draw_line_refines_spec_walk[of 0 0 2 1 "[]"]
  obtain cells where "spec_segments (0, 0) (2, 1) cells"
    and "draw_line [] 0 0 2 1 = Some ([] @ cells)" by blast
  then show ?thesis by (simp add: draw_line_example)
qed

text \<open>
  C3. For every pair of grid cells, negative and far out-of-grid ones included, the loop
  of \<open>draw_line\<close> terminates: the call returns, having appended a finite list of cells.
\<close>

theorem draw_line_terminates:
  "\<exists>cells. draw_line ws x0 y0 x1 y1 = Some (ws @ cells)"
  using spec_segments_exists spec_segments_draw_line by blast

text \<open>
  C4. For start and end cells that differ, the emitted sequence begins with the start cell
  and finishes with the end cell.
\<close>

theorem draw_line_endpoints:
  assumes "(x0, y0) \<noteq> (x1, y1)"
  shows "\<exists>cells. draw_line ws x0 y0 x1 y1 = Some (ws @ cells) \<and> cells \<noteq> [] \<and>
                 hd cells = (x0, y0) \<and> last cells = (x1, y1)"
  using spec_segments_exists spec_segments_draw_line spec_segments_ends by blast

theorem draw_line_endpoints_witness:
  "((0::int, 0::int) \<noteq> (2, 1)) \<and>
   (\<exists>cells. draw_line [] 0 0 2 1 = Some ([] @ cells) \<and> cells \<noteq> [] \<and>
            hd cells = (0, 0) \<and> last cells = (2, 1))"
proof -
  have h: "(0::int, 0::int) \<noteq> (2, 1)" by simp
  from draw_line_endpoints[OF h] h show ?thesis by blast
qed

text \<open>
  C5. In the emitted sequence every two consecutive cells differ by at most 1 in the
  column and by at most 1 in the row.
\<close>

theorem draw_line_8_connected:
  "\<exists>cells. draw_line ws x0 y0 x1 y1 = Some (ws @ cells) \<and>
     (\<forall>i. Suc i < length cells \<longrightarrow>
        \<bar>fst (cells ! Suc i) - fst (cells ! i)\<bar> \<le> 1 \<and>
        \<bar>snd (cells ! Suc i) - snd (cells ! i)\<bar> \<le> 1)"
proof -
  obtain cells where c: "spec_segments (x0, y0) (x1, y1) cells"
    using spec_segments_exists by blast
  have "adjacent8 (cells ! i) (cells ! Suc i)" if "Suc i < length cells" for i
    using successively_nth[OF spec_segments_connected[OF c] that] .
  with spec_segments_draw_line[OF c, of ws] show ?thesis
    unfolding adjacent8_def by blast
qed

theorem draw_line_8_connected_witness:
  "Suc 1 < length [(0::int, 0::int), (1, 0), (2, 1)] \<and>
   \<bar>fst ([(0::int, 0::int), (1, 0), (2, 1)] ! Suc 1) - fst ([(0::int, 0::int), (1, 0), (2, 1)] ! 1)\<bar> \<le> 1 \<and>
   \<bar>snd ([(0::int, 0::int), (1, 0), (2, 1)] ! Suc 1) - snd ([(0::int, 0::int), (1, 0), (2, 1)] ! 1)\<bar> \<le> 1 \<and>
   draw_line [] 0 0 2 1 = Some [(0, 0), (1, 0), (2, 1)]"
proof -
  from draw_line_8_connected[of "[]" 0 0 2 1]
  obtain cells where d: "draw_line [] 0 0 2 1 = Some ([] @ cells)"
    and s: "\<forall>i. Suc i < length cells \<longrightarrow>
        \<bar>fst (cells ! Suc i) - fst (cells ! i)\<bar> \<le> 1 \<and>
        \<bar>snd (cells ! Suc i) - snd (cells ! i)\<bar> \<le> 1" by blast
  from d have eq: "cells = [(0, 0), (1, 0), (2, 1)]" by (simp add: draw_line_example)
  have l: "Suc 1 < length cells" by (simp add: eq)
  from s l have "\<bar>fst (cells ! Suc 1) - fst (cells ! 1)\<bar> \<le> 1 \<and>
                 \<bar>snd (cells ! Suc 1) - snd (cells ! 1)\<bar> \<le> 1" by blast
  with l d show ?thesis unfolding eq by simp
qed

text \<open>
  C6. With start and end the same cell \<open>p\<close>, the rasterizer writes exactly one cell, \<open>p\<close>
  itself, and returns: the first pass through the loop body is the only one.
\<close>

theorem draw_line_single_cell:
  "draw_line ws x y x y = Some (ws @ [(x, y)])"
  unfolding draw_line_def Let_def by (rule draw_loop_end)


section \<open>Properties of the projection\<close>

lemma py_int_floor:
  "py_int (Finite v) = Inr (\<lfloor>v\<rfloor> + (if v < 0 \<and> of_int \<lfloor>v\<rfloor> \<noteq> v then 1 else 0))"
  by (auto simp: ceiling_altdef)

lemma py_int_Inr: "py_int f = Inr n \<Longrightarrow> \<exists>v. f = Finite v"
  by (cases f) simp_all

lemma convert_coords_Cons:
  "convert_coords_to_excel_coords ops (coord # coords) center_lon center_lat scale = Inr cells \<longleftrightarrow>
   (\<exists>lon lat u v rest. coord = [lon, lat] \<and>
      fadd ops (fmul ops (fsub ops lon center_lon) scale) (Finite 50) = Finite u \<and>
      fsub ops (Finite 50) (fmul ops (fsub ops lat center_lat) scale) = Finite v \<and>
      convert_coords_to_excel_coords ops coords center_lon center_lat scale = Inr rest \<and>
      cells = (\<lfloor>u\<rfloor> + (if u < 0 \<and> of_int \<lfloor>u\<rfloor> \<noteq> u then 1 else 0),
               \<lfloor>v\<rfloor> + (if v < 0 \<and> of_int \<lfloor>v\<rfloor> \<noteq> v then 1 else 0)) # rest)"
  (is "?L \<longleftrightarrow> ?R")
proof
  assume L: ?L
  then obtain lon lat where c: "coord = [lon, lat]"
    by (cases "(ops, coord # coords, center_lon, center_lat, scale)"
        rule: convert_coords_to_excel_coords.cases) auto
  let ?fu = "fadd ops (fmul ops (fsub ops lon center_lon) scale) (Finite 50)"
  let ?fv = "fsub ops (Finite 50) (fmul ops (fsub ops lat center_lat) scale)"
  from L obtain ex ey rest where i: "py_int ?fu = Inr ex" "py_int ?fv = Inr ey"
    and r: "convert_coords_to_excel_coords ops coords center_lon center_lat scale = Inr rest"
    and cs: "cells = (ex, ey) # rest"
    unfolding c by (auto simp: Let_def split: sum.splits)
  from i obtain u v where uv: "?fu = Finite u" "?fv = Finite v"
    using py_int_Inr by blast
  from i have "ex = \<lfloor>u\<rfloor> + (if u < 0 \<and> of_int \<lfloor>u\<rfloor> \<noteq> u then 1 else 0)"
    "ey = \<lfloor>v\<rfloor> + (if v < 0 \<and> of_int \<lfloor>v\<rfloor> \<noteq> v then 1 else 0)"
    unfolding uv py_int_floor by simp_all
  with c uv r cs show ?R by blast
next
  assume ?R
  then show ?L by (auto simp: Let_def py_int_floor simp del: py_int.simps)
qed

text \<open>
  C1 (as amended). The projector returns cells exactly when every coordinate is a pair
  whose two intermediate floats, \<open>(lon - center_lon) * scale + 50\<close> and
  \<open>50 - (lat - center_lat) * scale\<close> as the machine computes them, are finite; otherwise
  it raises. The cell then is the two floats with the fractional part discarded, that is,
  rounded toward zero: the floor when the float is non-negative or whole, the floor plus
  one when it is negative with a fractional part.
\<close>

theorem convert_coords_truncates:
  "convert_coords_to_excel_coords ops coords center_lon center_lat scale = Inr cells \<longleftrightarrow>
   list_all2 (\<lambda>coord cell. \<exists>lon lat u v. coord = [lon, lat] \<and>
        fadd ops (fmul ops (fsub ops lon center_lon) scale) (Finite 50) = Finite u \<and>
        fsub ops (Finite 50) (fmul ops (fsub ops lat center_lat) scale) = Finite v \<and>
        cell = (\<lfloor>u\<rfloor> + (if u < 0 \<and> of_int \<lfloor>u\<rfloor> \<noteq> u then 1 else 0),
                \<lfloor>v\<rfloor> + (if v < 0 \<and> of_int \<lfloor>v\<rfloor> \<noteq> v then 1 else 0)))
     coords cells"
proof (induction coords arbitrary: cells)
  case Nil
  show ?case by auto
next
  case (Cons coord coords)
  show ?case
    unfolding convert_coords_Cons list_all2_Cons1 Cons.IH by blast
qed

lemma dyadic53I: "\<bar>k\<bar> < 2 ^ 53 \<Longrightarrow> n \<le> 1074 \<Longrightarrow> x = of_int k / 2 ^ n \<Longrightarrow> dyadic53 x"
  unfolding dyadic53_def by blast

lemma dyadic53_values:
  "dyadic53 0" "dyadic53 50" "dyadic53 (1 / 2048)" "dyadic53 (1 / 1024)"
  "dyadic53 (1 / 32)" "dyadic53 (1 / 8)" "dyadic53 (1601 / 32)" "dyadic53 (401 / 8)"
  "dyadic53 (399 / 8)" "dyadic53 (1599 / 32)"
  "dyadic53 (- (5 / 8))" "dyadic53 (5 / 8)" "dyadic53 (- (125 / 2))" "dyadic53 (125 / 2)"
  "dyadic53 (- (25 / 2))"
proof -
  show "dyadic53 0" by (rule dyadic53I[of 0 0]) simp_all
  show "dyadic53 50" by (rule dyadic53I[of 50 0]) simp_all
  show "dyadic53 (1 / 2048)" by (rule dyadic53I[of 1 11]) simp_all
  show "dyadic53 (1 / 1024)" by (rule dyadic53I[of 1 10]) simp_all
  show "dyadic53 (1 / 32)" by (rule dyadic53I[of 1 5]) simp_all
  show "dyadic53 (1 / 8)" by (rule dyadic53I[of 1 3]) simp_all
  show "dyadic53 (1601 / 32)" by (rule dyadic53I[of 1601 5]) simp_all
  show "dyadic53 (401 / 8)" by (rule dyadic53I[of 401 3]) simp_all
  show "dyadic53 (399 / 8)" by (rule dyadic53I[of 399 3]) simp_all
  show "dyadic53 (1599 / 32)" by (rule dyadic53I[of 1599 5]) simp_all
  show "dyadic53 (- (5 / 8))" by (rule dyadic53I[of "- 5" 3]) simp_all
  show "dyadic53 (5 / 8)" by (rule dyadic53I[of 5 3]) simp_all
  show "dyadic53 (- (125 / 2))" by (rule dyadic53I[of "- 125" 1]) simp_all
  show "dyadic53 (125 / 2)" by (rule dyadic53I[of 125 1]) simp_all
  show "dyadic53 (- (25 / 2))" by (rule dyadic53I[of "- 25" 1]) simp_all
qed

lemma rnd_between:
  "rounding_between rnd \<Longrightarrow> dyadic53 p \<Longrightarrow> dyadic53 q \<Longrightarrow> p \<le> x \<Longrightarrow> x \<le> q \<Longrightarrow>
   \<exists>r. rnd x = Finite r \<and> p \<le> r \<and> r \<le> q"
  unfolding rounding_between_def by blast

lemma rnd_fixes: "rounding_between rnd \<Longrightarrow> dyadic53 p \<Longrightarrow> rnd p = Finite p"
  using rnd_between[of rnd p p p] by auto

lemma exact_ops_round: "ops_round exact_ops Finite"
  by (simp add: ops_round_def exact_ops_def)

lemma exact_rounding_between: "rounding_between Finite"
  by (simp add: rounding_between_def)

text \<open>An offset between \<open>2^-11\<close> and \<open>2^-10\<close> degrees at scale 100 stays inside one cell.\<close>

lemma column_near:
  assumes o: "ops_round ops rnd" and r: "rounding_between rnd"
    and lo: "1 / 2048 \<le> lon - center_lon" and hi: "lon - center_lon \<le> 1 / 1024"
  shows "\<exists>u. fadd ops (fmul ops (fsub ops (Finite lon) (Finite center_lon)) (Finite 100)) (Finite 50)
              = Finite u \<and> 50 < u \<and> u < 51"
proof -
  from rnd_between[OF r dyadic53_values(3,4) lo hi]
  obtain d where d: "rnd (lon - center_lon) = Finite d" "1 / 2048 \<le> d" "d \<le> 1 / 1024" by blast
  have "1 / 32 \<le> d * 100" "d * 100 \<le> 1 / 8" using d(2,3) by simp_all
  from rnd_between[OF r dyadic53_values(5,6) this]
  obtain x where x: "rnd (d * 100) = Finite x" "1 / 32 \<le> x" "x \<le> 1 / 8" by blast
  have "1601 / 32 \<le> x + 50" "x + 50 \<le> 401 / 8" using x(2,3) by simp_all
  from rnd_between[OF r dyadic53_values(7,8) this]
  obtain u where u: "rnd (x + 50) = Finite u" "1601 / 32 \<le> u" "u \<le> 401 / 8" by blast
  have "fadd ops (fmul ops (fsub ops (Finite lon) (Finite center_lon)) (Finite 100)) (Finite 50)
        = Finite u"
    using o d(1) x(1) u(1) by (simp add: ops_round_def)
  with u(2,3) show ?thesis by auto
qed

lemma row_near:
  assumes o: "ops_round ops rnd" and r: "rounding_between rnd"
    and lo: "1 / 2048 \<le> lat - center_lat" and hi: "lat - center_lat \<le> 1 / 1024"
  shows "\<exists>v. fsub ops (Finite 50) (fmul ops (fsub ops (Finite lat) (Finite center_lat)) (Finite 100))
              = Finite v \<and> 49 < v \<and> v < 50"
proof -
  from rnd_between[OF r dyadic53_values(3,4) lo hi]
  obtain d where d: "rnd (lat - center_lat) = Finite d" "1 / 2048 \<le> d" "d \<le> 1 / 1024" by blast
  have "1 / 32 \<le> d * 100" "d * 100 \<le> 1 / 8" using d(2,3) by simp_all
  from rnd_between[OF r dyadic53_values(5,6) this]
  obtain y where y: "rnd (d * 100) = Finite y" "1 / 32 \<le> y" "y \<le> 1 / 8" by blast
  have "399 / 8 \<le> 50 - y" "50 - y \<le> 1599 / 32" using y(2,3) by simp_all
  from rnd_between[OF r dyadic53_values(9,10) this]
  obtain v where v: "rnd (50 - y) = Finite v" "399 / 8 \<le> v" "v \<le> 1599 / 32" by blast
  have "fsub ops (Finite 50) (fmul ops (fsub ops (Finite lat) (Finite center_lat)) (Finite 100))
        = Finite v"
    using o d(1) y(1) v(1) by (simp add: ops_round_def)
  with v(2,3) show ?thesis by auto
qed

lemma at_center:
  assumes o: "ops_round ops rnd" and r: "rounding_between rnd"
  shows "fadd ops (fmul ops (fsub ops (Finite a) (Finite a)) (Finite 100)) (Finite 50) = Finite 50"
    and "fsub ops (Finite 50) (fmul ops (fsub ops (Finite a) (Finite a)) (Finite 100)) = Finite 50"
  using o rnd_fixes[OF r dyadic53_values(1)] rnd_fixes[OF r dyadic53_values(2)]
  by (simp_all add: ops_round_def)

lemma py_int_in_cell: "of_int n \<le> v \<Longrightarrow> v < of_int n + 1 \<Longrightarrow> 0 \<le> n \<Longrightarrow> py_int (Finite v) = Inr n"
  by (simp add: floor_unique)

text \<open>
  C1 as stated fails: at longitude \<open>-0.625\<close>, latitude \<open>0.625\<close>, center \<open>(0, 0)\<close> and scale
  \<open>100\<close> both intermediate values are \<open>-12.5\<close>; the projector returns \<open>(-12, -12)\<close>, the
  floors are \<open>(-13, -13)\<close>. Every value involved is a binary64 number, so the machine
  computes it without rounding.
\<close>

theorem convert_coords_floor_counterexample:
  "convert_coords_to_excel_coords exact_ops [[Finite (- 0.625), Finite 0.625]]
     (Finite 0) (Finite 0) (Finite 100) = Inr [(- 12, - 12)] \<and>
   convert_coords_to_excel_coords exact_ops [[Finite (- 0.625), Finite 0.625]]
     (Finite 0) (Finite 0) (Finite 100) \<noteq>
     Inr [(\<lfloor>(- 0.625 - 0) * 100 + 50 :: real\<rfloor>, \<lfloor>50 - (0.625 - 0) * 100 :: real\<rfloor>)]"
  by (simp add: exact_ops_def)

text \<open>The same cell results under every rounding that leaves binary64 numbers alone.\<close>

lemma convert_coords_floor_example_any_rounding:
  assumes o: "ops_round ops rnd" and r: "rounding_between rnd"
  shows "convert_coords_to_excel_coords ops [[Finite (- 0.625), Finite 0.625]]
           (Finite 0) (Finite 0) (Finite 100) = Inr [(- 12, - 12)]"
proof -
  note f = rnd_fixes[OF r]
  have "fadd ops (fmul ops (fsub ops (Finite (- 0.625)) (Finite 0)) (Finite 100)) (Finite 50)
        = Finite (- (25 / 2))"
    using o f[OF dyadic53_values(11)] f[OF dyadic53_values(13)] f[OF dyadic53_values(15)]
    by (simp add: ops_round_def)
  moreover have "fsub ops (Finite 50) (fmul ops (fsub ops (Finite 0.625) (Finite 0)) (Finite 100))
        = Finite (- (25 / 2))"
    using o f[OF dyadic53_values(12)] f[OF dyadic53_values(14)] f[OF dyadic53_values(15)]
    by (simp add: ops_round_def)
  ultimately show ?thesis by simp
qed

text \<open>
  C7 (as amended). With center \<open>(-73.9857, 40.7484)\<close> and scale \<open>100\<close> the start
  \<open>(-73.9857, 40.7484)\<close> is projected to cell \<open>(50, 50)\<close> and the end \<open>(-73.9850, 40.7490)\<close>
  to cell \<open>(50, 49)\<close>: the row is below 50, the column stays 50, since \<open>0.0007\<close> degrees
  east are \<open>0.07\<close> of a cell. This holds for the floats within \<open>10^-9\<close> of the four decimal
  numbers and for every arithmetic that rounds the exact results without crossing a
  binary64 number.
\<close>

theorem empire_state_projection:
  assumes "ops_round ops rnd" and "rounding_between rnd"
    and "\<bar>a - (- 73.9857)\<bar> \<le> 1 / 10 ^ 9" and "\<bar>b - 40.7484\<bar> \<le> 1 / 10 ^ 9"
    and "\<bar>c - (- 73.9850)\<bar> \<le> 1 / 10 ^ 9" and "\<bar>d - 40.7490\<bar> \<le> 1 / 10 ^ 9"
  shows "convert_coords_to_excel_coords ops [[Finite a, Finite b], [Finite c, Finite d]]
           (Finite a) (Finite b) (Finite 100) = Inr [(50, 50), (50, 49)]"
proof -
  have e: "(1::real) / 10 ^ 9 = 1 / 1000000000" by simp
  from assms(3,5) have "- 73.9857 - 1 / 1000000000 \<le> a" "a \<le> - 73.9857 + 1 / 1000000000"
    "- 73.9850 - 1 / 1000000000 \<le> c" "c \<le> - 73.9850 + 1 / 1000000000"
    unfolding e abs_le_iff by linarith+
  then have lon: "1 / 2048 \<le> c - a" "c - a \<le> 1 / 1024" by simp_all
  from assms(4,6) have "40.7484 - 1 / 1000000000 \<le> b" "b \<le> 40.7484 + 1 / 1000000000"
    "40.7490 - 1 / 1000000000 \<le> d" "d \<le> 40.7490 + 1 / 1000000000"
    unfolding e abs_le_iff by linarith+
  then have lat: "1 / 2048 \<le> d - b" "d - b \<le> 1 / 1024" by simp_all
  from column_near[OF assms(1,2) lon]
  obtain u where u: "fadd ops (fmul ops (fsub ops (Finite c) (Finite a)) (Finite 100)) (Finite 50)
      = Finite u" "50 < u" "u < 51" by blast
  from row_near[OF assms(1,2) lat]
  obtain v where v: "fsub ops (Finite 50) (fmul ops (fsub ops (Finite d) (Finite b)) (Finite 100))
      = Finite v" "49 < v" "v < 50" by blast
  have iu: "py_int (Finite u) = Inr 50" using u(2,3) by (intro py_int_in_cell) simp_all
  have iv: "py_int (Finite v) = Inr 49" using v(2,3) by (intro py_int_in_cell) simp_all
  have i50: "py_int (Finite 50) = Inr 50" by simp
  show ?thesis
    by (simp only: convert_coords_to_excel_coords.simps Let_def at_center[OF assms(1,2)]
        u(1) v(1) iu iv i50 sum.case)
qed

theorem empire_state_projection_witness:
  "ops_round exact_ops Finite \<and> rounding_between Finite \<and>
   \<bar>- 73.9857 - (- 73.9857 :: real)\<bar> \<le> 1 / 10 ^ 9 \<and> \<bar>40.7484 - (40.7484 :: real)\<bar> \<le> 1 / 10 ^ 9 \<and>
   \<bar>- 73.9850 - (- 73.9850 :: real)\<bar> \<le> 1 / 10 ^ 9 \<and> \<bar>40.7490 - (40.7490 :: real)\<bar> \<le> 1 / 10 ^ 9 \<and>
   convert_coords_to_excel_coords exact_ops
     [[Finite (- 73.9857), Finite 40.7484], [Finite (- 73.9850), Finite 40.7490]]
     (Finite (- 73.9857)) (Finite 40.7484) (Finite 100) = Inr [(50, 50), (50, 49)]"
proof -
  have t: "\<bar>- 73.9857 - (- 73.9857 :: real)\<bar> \<le> 1 / 10 ^ 9" "\<bar>40.7484 - (40.7484 :: real)\<bar> \<le> 1 / 10 ^ 9"
    "\<bar>- 73.9850 - (- 73.9850 :: real)\<bar> \<le> 1 / 10 ^ 9" "\<bar>40.7490 - (40.7490 :: real)\<bar> \<le> 1 / 10 ^ 9"
    by simp_all
  from empire_state_projection[OF exact_ops_round exact_rounding_between t]
    exact_ops_round exact_rounding_between t
  show ?thesis by blast
qed

text \<open>C7 as stated fails: the end cell's column is 50, not strictly greater than 50.\<close>

theorem empire_state_projection_counterexample:
  "\<not> (case convert_coords_to_excel_coords exact_ops
              [[Finite (- 73.9857), Finite 40.7484], [Finite (- 73.9850), Finite 40.7490]]
              (Finite (- 73.9857)) (Finite 40.7484) (Finite 100) of
         Inl e \<Rightarrow> False
       | Inr cells \<Rightarrow> cells ! 0 = (50, 50) \<and> fst (cells ! 1) > 50 \<and> snd (cells ! 1) < 50)"
  by (simp add: exact_ops_def)

section \<open>Properties of the spreadsheet export\<close>

lemma draw_line_returns: "\<exists>cells. draw_line ws x0 y0 x1 y1 = Some (ws @ cells)"
  using spec_segments_exists spec_segments_draw_line by blast

lemma draw_segments_returns: "\<exists>ws'. draw_segments ws cells = Some ws'"
proof (induction ws cells rule: draw_segments.induct)
  case (1 ws start_x start_y end_x end_y rest)
  obtain cs where "draw_line ws start_x start_y end_x end_y = Some (ws @ cs)"
    using draw_line_returns by blast
  with 1 show ?case by simp
qed simp_all

lemma draw_rows_returns: "\<exists>r. draw_rows ops ws rs center_lon center_lat = Some r"
proof (induction rs arbitrary: ws)
  case Nil
  show ?case by simp
next
  case (Cons row rs)
  show ?case
  proof (cases "geometry row")
    case (LineString coords)
    show ?thesis
    proof (cases "convert_coords_to_excel_coords ops coords center_lon center_lat (Finite 100)")
      case (Inl e)
      with LineString show ?thesis by simp
    next
      case (Inr excel_coords)
      obtain ws1 where "draw_segments ws excel_coords = Some ws1"
        using draw_segments_returns by blast
      with Cons[of ws1] LineString Inr show ?thesis by simp
    qed
  qed (use Cons in simp_all)
qed

lemma draw_rows_skip:
  "\<not> is_LineString (geometry f) \<Longrightarrow>
   draw_rows ops ws (pre @ f # post) center_lon center_lat =
   draw_rows ops ws (pre @ post) center_lon center_lat"
  by (induction pre arbitrary: ws) (auto split: geometry.splits sum.splits)

lemma draw_line_demo: "draw_line [] 50 50 52 49 = Some [(50, 50), (51, 50), (52, 49)]"
  by code_simp

text \<open>
  C10. In \<open>export_streets_to_excel\<close> a feature whose geometry is not a single LineString
  writes no cell and raises nothing: the loop passes over it with the worksheet
  unchanged, and it can be dropped from the frame without changing the worksheet or the
  result of the export, which in both cases comes to an end.
\<close>

theorem export_skips_other_geometries:
  assumes "\<not> is_LineString (geometry f)"
  shows "draw_rows ops ws [f] center_lon center_lat = Some (ws, None) \<and>
         export_streets_to_excel ops wc (sd\<lparr>rows := pre @ f # post\<rparr>) c out =
         export_streets_to_excel ops wc (sd\<lparr>rows := pre @ post\<rparr>) c out \<and>
         (\<exists>sheet result.
            export_streets_to_excel ops wc (sd\<lparr>rows := pre @ f # post\<rparr>) c out =
              Some (sheet, result))"
proof -
  obtain center_lon' center_lat' where c: "c = (center_lon', center_lat')" by (cases c)
  have 1: "draw_rows ops ws [f] center_lon center_lat = Some (ws, None)"
    using draw_rows_skip[OF assms, of ops ws "[]" "[]"] by simp
  obtain sheet raised where
    "draw_rows ops [] (pre @ f # post) center_lon' center_lat' = Some (sheet, raised)"
    using draw_rows_returns[of ops "[]" "pre @ f # post" center_lon' center_lat'] by auto
  then have 3: "\<exists>sheet result.
      export_streets_to_excel ops wc (sd\<lparr>rows := pre @ f # post\<rparr>) c out = Some (sheet, result)"
    by (simp add: export_streets_to_excel_def c)
  have 2: "export_streets_to_excel ops wc (sd\<lparr>rows := pre @ f # post\<rparr>) c out =
         export_streets_to_excel ops wc (sd\<lparr>rows := pre @ post\<rparr>) c out"
    by (simp add: export_streets_to_excel_def c draw_rows_skip[OF assms])
  from 1 2 3 show ?thesis by blast
qed

theorem export_skips_other_geometries_witness:
  "\<not> is_LineString (geometry
       \<lparr>geometry = MultiLineString [[[Finite 0, Finite 0], [Finite 0.02, Finite 0]]],
        stname = None\<rparr>) \<and>
   export_streets_to_excel exact_ops (\<lambda>p s. None)
     \<lparr>crs = None,
      rows = [\<lparr>geometry = LineString [[Finite 0, Finite 0], [Finite 0.02, Finite 0.01]],
               stname = Some ''A''\<rparr>,
              \<lparr>geometry = MultiLineString [[[Finite 0, Finite 0], [Finite 0.02, Finite 0]]],
               stname = None\<rparr>]\<rparr>
     (Finite 0, Finite 0) ''map.xlsx''
   = Some ([(50, 50), (51, 50), (52, 49)], Inr True)"
proof -
  let ?f = "\<lparr>geometry = MultiLineString [[[Finite 0, Finite 0], [Finite 0.02, Finite 0]]],
             stname = None\<rparr>"
  let ?g = "\<lparr>geometry = LineString [[Finite 0, Finite 0], [Finite 0.02, Finite 0.01]],
             stname = Some ''A''\<rparr>"
  have h: "\<not> is_LineString (geometry ?f)" by simp
  have e: "export_streets_to_excel exact_ops (\<lambda>p s. None) \<lparr>crs = None, rows = [?g]\<rparr>
             (Finite 0, Finite 0) ''map.xlsx''
           = Some ([(50, 50), (51, 50), (52, 49)], Inr True)"
    by (simp add: export_streets_to_excel_def exact_ops_def draw_line_demo)
  from export_skips_other_geometries[OF h, where ops = exact_ops and wc = "\<lambda>p s. None"
        and sd = "\<lparr>crs = None, rows = []\<rparr>" and pre = "[?g]" and post = "[]"
        and c = "(Finite 0, Finite 0)" and out = "''map.xlsx''"]
  have "export_streets_to_excel exact_ops (\<lambda>p s. None) \<lparr>crs = None, rows = [?g, ?f]\<rparr>
          (Finite 0, Finite 0) ''map.xlsx'' =
        export_streets_to_excel exact_ops (\<lambda>p s. None) \<lparr>crs = None, rows = [?g]\<rparr>
          (Finite 0, Finite 0) ''map.xlsx''"
    by simp
  with h e show ?thesis by simp
qed

section \<open>Properties of the spatial filter\<close>








section \<open>Properties of the companion-file check and the pipeline\<close>

lemma py_print_fields [simp]:
  "stdout (py_print s w) = stdout w @ [s]"
  "stdin (py_print s w) = stdin w"
  "file_reads (py_print s w) = file_reads w"
  "artifacts (py_print s w) = artifacts w"
  by (simp_all add: py_print_def)

lemma report_error_fields [simp]:
  "stdout (report_error e w) = stdout w @ [''\<newline>Error: '' @ exc_str e]"
  "file_reads (report_error e w) = file_reads w"
  "artifacts (report_error e w) = artifacts w"
  by (simp_all add: report_error_def)



















end
